theory Spec2Isabelle
  imports Main "HOL-Library.Sublist" "HOL-Library.Multiset"
begin

section \<open>The blog post schema (models/post.js)\<close>

text \<open>
  \<^verbatim>\<open>BlogPostSchema\<close> declares nine paths. \<^verbatim>\<open>id\<close>, \<^verbatim>\<open>title\<close>, \<^verbatim>\<open>urlTitle\<close> and the last four
  are of type String, \<^verbatim>\<open>dateTimestamp\<close> is a Number holding a UNIX timestamp and
  \<^verbatim>\<open>tags\<close> is an array of tag strings. The path \<^verbatim>\<open>id\<close> is written \<open>id'\<close> because
  \<open>id\<close> is the identity function of HOL. No path is required; a post may have no
  thumbnail, so \<^verbatim>\<open>thumbnailImageUrl\<close> is optional.

  Besides the paths of the schema, every document of the store has the key \<^verbatim>\<open>_id\<close> that
  the store gives it. It is written \<open>object_id\<close>, since a name cannot begin with
  an underscore.
\<close>

record post =
  object_id :: string
  id' :: string
  title :: string
  urlTitle :: string
  dateTimestamp :: int
  tags :: "string list"
  thumbnailImageUrl :: "string option"
  markdownContent :: string
  seoTitleTag :: string
  seoMetaDescription :: string

text \<open>
  What a query hands back is a document: the keys that were selected, each with its
  value, \<^verbatim>\<open>_id\<close> first and then the paths in the order of the schema. A post without a
  thumbnail has no key \<^verbatim>\<open>thumbnailImageUrl\<close>.
\<close>

datatype val = Str string | Num int | Arr "string list"

type_synonym document = "(string \<times> val) list"

definition toObject :: "post \<Rightarrow> document" where
  "toObject p =
     [(''_id'', Str (object_id p)),
      (''id'', Str (id' p)),
      (''title'', Str (title p)),
      (''urlTitle'', Str (urlTitle p)),
      (''dateTimestamp'', Num (dateTimestamp p)),
      (''tags'', Arr (tags p))]
     @ (case thumbnailImageUrl p of
          None \<Rightarrow> []
        | Some url \<Rightarrow> [(''thumbnailImageUrl'', Str url)])
     @ [(''markdownContent'', Str (markdownContent p)),
        (''seoTitleTag'', Str (seoTitleTag p)),
        (''seoMetaDescription'', Str (seoMetaDescription p))]"

section \<open>The query primitives of the document store\<close>

text \<open>
  The second argument of \<^verbatim>\<open>find\<close> is a string of path names separated by spaces;
  \<open>split_paths\<close> cuts it into the names. A document is projected to the paths that
  are named, and keeps its \<^verbatim>\<open>_id\<close> as well unless the string names \<^verbatim>\<open>-_id\<close>.
\<close>

fun split_acc :: "string \<Rightarrow> string \<Rightarrow> string list" where
  "split_acc cur [] = (if cur = [] then [] else [cur])"
| "split_acc cur (c # cs) =
     (if c = CHR '' ''
      then (if cur = [] then split_acc [] cs else cur # split_acc [] cs)
      else split_acc (cur @ [c]) cs)"

definition split_paths :: "string \<Rightarrow> string list" where
  "split_paths s = split_acc [] s"

definition select :: "string \<Rightarrow> post \<Rightarrow> document" where
  "select paths p =
     filter (\<lambda>kv. fst kv \<in> set (split_paths paths)
                  \<or> (fst kv = ''_id'' \<and> ''-_id'' \<notin> set (split_paths paths)))
       (toObject p)"

text \<open>
  The three filters that api.js writes: \<^verbatim>\<open>{dateTimestamp: {$lte: n}}\<close>,
  \<^verbatim>\<open>{tags: t}\<close> (the array holds an element equal to \<open>t\<close>) and \<^verbatim>\<open>{urlTitle: u}\<close>.
  A filter object with several keys is the conjunction of its conditions.
\<close>

datatype condition = DateTimestampLte int | TagsEq string | UrlTitleEq string

fun matches :: "condition \<Rightarrow> post \<Rightarrow> bool" where
  "matches (DateTimestampLte n) p = (dateTimestamp p \<le> n)"
| "matches (TagsEq t) p = (t \<in> set (tags p))"
| "matches (UrlTitleEq u) p = (urlTitle p = u)"

text \<open>
  A query is built by chaining: \<^verbatim>\<open>find(filter, fields)\<close>, then \<^verbatim>\<open>.sort({dateTimestamp: d})\<close>
  and \<^verbatim>\<open>.limit(n)\<close>. Nothing touches the store before \<^verbatim>\<open>.exec\<close>.
\<close>

record query =
  conditions :: "condition list"
  projection :: string
  sort_dateTimestamp :: "int option"
  limit_count :: "nat option"

definition find_q :: "condition list \<Rightarrow> string \<Rightarrow> query" where
  "find_q conds paths =
     \<lparr>conditions = conds, projection = paths, sort_dateTimestamp = None, limit_count = None\<rparr>"

definition sort_q :: "int \<Rightarrow> query \<Rightarrow> query" where
  "sort_q direction q = q\<lparr>sort_dateTimestamp := Some direction\<rparr>"

definition limit_q :: "nat \<Rightarrow> query \<Rightarrow> query" where
  "limit_q n q = q\<lparr>limit_count := Some n\<rparr>"

text \<open>
  The store answers a query by filtering, sorting, cutting to the limit and projecting,
  in that order. Direction \<open>-1\<close> sorts from the greatest timestamp down.

  The store fixes no order among posts with the same timestamp, and it sorts a query
  with a limit on its own, keeping only the first \<open>n\<close>. The list \<open>ps\<close> is therefore
  the posts in the order in which the store meets them while it answers this one
  query: posts with the same timestamp come out in that order, and another query on
  the same posts may meet them in another order (see \<open>same_posts\<close> below).
\<close>

definition run_query :: "query \<Rightarrow> post list \<Rightarrow> document list" where
  "run_query q ps =
     (let matched = filter (\<lambda>p. list_all (\<lambda>c. matches c p) (conditions q)) ps;
          ordered = (case sort_dateTimestamp q of
                       None \<Rightarrow> matched
                     | Some d \<Rightarrow> if d < 0 then sort_key (\<lambda>p. - dateTimestamp p) matched
                                else sort_key dateTimestamp matched);
          limited = (case limit_count q of None \<Rightarrow> ordered | Some n \<Rightarrow> take n ordered)
      in map (select (projection q)) limited)"

text \<open>
  The store is either unreachable, and then every query ends in an error, or it holds
  the collection \<^verbatim>\<open>posts\<close>, given as the list in which a query meets its posts.
  \<open>exec\<close> is what the callback \<^verbatim>\<open>function (error, posts)\<close> receives: \<open>Inl\<close> the
  error, \<open>Inr\<close> the documents.
\<close>

datatype error = StorageError

datatype store = Unavailable | Collection "post list"

text \<open>
  Two queries run on the same store at the same time when both find it unreachable or
  both find the same posts, each in the order in which that query meets them.
\<close>

fun same_posts :: "store \<Rightarrow> store \<Rightarrow> bool" where
  "same_posts Unavailable Unavailable = True"
| "same_posts (Collection ps) (Collection qs) = (mset ps = mset qs)"
| "same_posts _ _ = False"

definition exec :: "store \<Rightarrow> query \<Rightarrow> error + document list" where
  "exec model q =
     (case model of
        Unavailable \<Rightarrow> Inl StorageError
      | Collection ps \<Rightarrow> Inr (run_query q ps))"

text \<open>
  \<^verbatim>\<open>findOne(filter).exec\<close> gives the first post of the collection that satisfies the
  filter, whole (there is no projection), or \<^verbatim>\<open>null\<close>, here \<open>None\<close>.
\<close>

definition findOne_exec :: "store \<Rightarrow> condition list \<Rightarrow> error + post option" where
  "findOne_exec model conds =
     (case model of
        Unavailable \<Rightarrow> Inl StorageError
      | Collection ps \<Rightarrow> Inr (List.find (\<lambda>p. list_all (\<lambda>c. matches c p) conds) ps))"

section \<open>The accessor (api.js)\<close>

text \<open>
  Every operation hands one object to its callback. The object is kept as the list of
  its keys and values, so that the spelling of a key is part of the model.
\<close>

datatype jvalue = JBool bool | JPosts "document list" | JPost post

type_synonym envelope = "(string \<times> jvalue) list"

text \<open>
  \<open>now\<close> is \<^verbatim>\<open>moment().unix()\<close> and \<open>BlogPostModel\<close> the state of the store when the
  query runs. The Markdown converter of showdown is a parameter, \<open>makeHtml\<close>.
\<close>

definition getAllBlogPosts :: "int \<Rightarrow> store \<Rightarrow> (envelope \<Rightarrow> 'r) \<Rightarrow> 'r" where
  "getAllBlogPosts now BlogPostModel callback =
     (case exec BlogPostModel
             (sort_q (- 1)
               (find_q [DateTimestampLte now]
                  ''title urlTitle dateTimestamp tags thumbnailImageUrl'')) of
        Inl error \<Rightarrow> callback [(''getDataError'', JBool True)]
      | Inr posts \<Rightarrow> callback [(''success'', JBool True), (''posts'', JPosts posts)])"

definition getBlogPostsByTag :: "int \<Rightarrow> store \<Rightarrow> string \<Rightarrow> (envelope \<Rightarrow> 'r) \<Rightarrow> 'r" where
  "getBlogPostsByTag now BlogPostModel tag callback =
     (case exec BlogPostModel
             (sort_q (- 1)
               (find_q [TagsEq tag, DateTimestampLte now]
                  ''title urlTitle dateTimestamp tags thumbnailImageUrl'')) of
        Inl error \<Rightarrow> callback [(''getDataError'', JBool True)]
      | Inr posts \<Rightarrow> callback [(''success'', JBool True), (''posts'', JPosts posts)])"

definition getFiveNewestPosts :: "int \<Rightarrow> store \<Rightarrow> (envelope \<Rightarrow> 'r) \<Rightarrow> 'r" where
  "getFiveNewestPosts now BlogPostModel callback =
     (case exec BlogPostModel
             (limit_q 5
               (sort_q (- 1)
                 (find_q [DateTimestampLte now]
                    ''title urlTitle dateTimestamp tags thumbnailImageUrl''))) of
        Inl error \<Rightarrow> callback [(''getdataError'', JBool True)]
      | Inr posts \<Rightarrow> callback [(''success'', JBool True), (''posts'', JPosts posts)])"

definition getBlogPostByUrlTitle ::
  "(string \<Rightarrow> string) \<Rightarrow> store \<Rightarrow> string \<Rightarrow> (envelope \<Rightarrow> 'r) \<Rightarrow> 'r" where
  "getBlogPostByUrlTitle makeHtml BlogPostModel url callback =
     (case findOne_exec BlogPostModel [UrlTitleEq url] of
        Inl error \<Rightarrow> callback [(''getDataError'', JBool True)]
      | Inr None \<Rightarrow> callback [(''notFoundError'', JBool True)]
      | Inr (Some post) \<Rightarrow>
          callback [(''success'', JBool True),
                    (''post'', JPost (post\<lparr>markdownContent := makeHtml (markdownContent post)\<rparr>))])"

section \<open>Reading an envelope\<close>

definition flag :: "string \<Rightarrow> envelope \<Rightarrow> bool" where
  "flag k e = (map_of e k = Some (JBool True))"

definition posts_of :: "envelope \<Rightarrow> document list" where
  "posts_of e = (case map_of e ''posts'' of Some (JPosts ds) \<Rightarrow> ds | _ \<Rightarrow> [])"

text \<open>
  The projection that the three list operations ask for, applied to one post.
\<close>

abbreviation listed :: "post \<Rightarrow> document" where
  "listed \<equiv> select ''title urlTitle dateTimestamp tags thumbnailImageUrl''"


section \<open>Three sample posts\<close>

text \<open>
  One post dated 100 and one dated 10100, so that at time 100 the first is published and
  the second is not; and a third post, without a thumbnail, dated 100 as the first is.
\<close>

definition post_a :: post where
  "post_a = \<lparr>object_id = ''64a1'', id' = ''1'', title = ''A'', urlTitle = ''a'',
     dateTimestamp = 100, tags = [''js'', ''css''], thumbnailImageUrl = Some ''/assets/a.png'',
     markdownContent = ''# Hi'', seoTitleTag = ''A'', seoMetaDescription = ''about a''\<rparr>"

definition post_b :: post where
  "post_b = \<lparr>object_id = ''64a2'', id' = ''2'', title = ''B'', urlTitle = ''b'',
     dateTimestamp = 10100, tags = [''js''], thumbnailImageUrl = Some ''/assets/b.png'',
     markdownContent = ''text'', seoTitleTag = ''B'', seoMetaDescription = ''about b''\<rparr>"

definition post_c :: post where
  "post_c = \<lparr>object_id = ''64a3'', id' = ''3'', title = ''C'', urlTitle = ''c'',
     dateTimestamp = 100, tags = [''css''], thumbnailImageUrl = None,
     markdownContent = ''more'', seoTitleTag = ''C'', seoMetaDescription = ''about c''\<rparr>"

section \<open>What each operation computes\<close>

lemma split_list_paths:
  "split_paths ''title urlTitle dateTimestamp tags thumbnailImageUrl''
     = [''title'', ''urlTitle'', ''dateTimestamp'', ''tags'', ''thumbnailImageUrl'']"
  by (simp add: split_paths_def)

lemma listed_eq:
  "listed p =
     [(''_id'', Str (object_id p)), (''title'', Str (title p)), (''urlTitle'', Str (urlTitle p)),
      (''dateTimestamp'', Num (dateTimestamp p)), (''tags'', Arr (tags p))]
     @ (case thumbnailImageUrl p of
          None \<Rightarrow> []
        | Some url \<Rightarrow> [(''thumbnailImageUrl'', Str url)])"
  by (simp add: select_def split_list_paths toObject_def split: option.split)

lemma getAllBlogPosts_collection:
  "getAllBlogPosts now (Collection ps) callback =
     callback [(''success'', JBool True),
               (''posts'', JPosts (map listed
                  (sort_key (\<lambda>p. - dateTimestamp p) (filter (\<lambda>p. dateTimestamp p \<le> now) ps))))]"
  by (simp add: getAllBlogPosts_def exec_def run_query_def find_q_def sort_q_def)

lemma getBlogPostsByTag_collection:
  "getBlogPostsByTag now (Collection ps) tag callback =
     callback [(''success'', JBool True),
               (''posts'', JPosts (map listed
                  (sort_key (\<lambda>p. - dateTimestamp p)
                     (filter (\<lambda>p. tag \<in> set (tags p) \<and> dateTimestamp p \<le> now) ps))))]"
  by (simp add: getBlogPostsByTag_def exec_def run_query_def find_q_def sort_q_def)

lemma getFiveNewestPosts_collection:
  "getFiveNewestPosts now (Collection ps) callback =
     callback [(''success'', JBool True),
               (''posts'', JPosts (map listed
                  (take 5 (sort_key (\<lambda>p. - dateTimestamp p)
                     (filter (\<lambda>p. dateTimestamp p \<le> now) ps)))))]"
  by (simp add: getFiveNewestPosts_def exec_def run_query_def find_q_def sort_q_def limit_q_def)

lemma getBlogPostByUrlTitle_collection:
  "getBlogPostByUrlTitle makeHtml (Collection ps) url callback =
     (case List.find (\<lambda>p. urlTitle p = url) ps of
        None \<Rightarrow> callback [(''notFoundError'', JBool True)]
      | Some post \<Rightarrow>
          callback [(''success'', JBool True),
                    (''post'', JPost (post\<lparr>markdownContent := makeHtml (markdownContent post)\<rparr>))])"
  by (simp add: getBlogPostByUrlTitle_def findOne_exec_def)

lemma posts_of_getAllBlogPosts:
  "posts_of (getAllBlogPosts now (Collection ps) (\<lambda>e. e))
     = map listed (sort_key (\<lambda>p. - dateTimestamp p) (filter (\<lambda>p. dateTimestamp p \<le> now) ps))"
  by (simp add: getAllBlogPosts_collection posts_of_def)

lemma posts_of_getBlogPostsByTag:
  "posts_of (getBlogPostsByTag now (Collection ps) tag (\<lambda>e. e))
     = map listed (sort_key (\<lambda>p. - dateTimestamp p)
         (filter (\<lambda>p. tag \<in> set (tags p) \<and> dateTimestamp p \<le> now) ps))"
  by (simp add: getBlogPostsByTag_collection posts_of_def)

lemma posts_of_getFiveNewestPosts:
  "posts_of (getFiveNewestPosts now (Collection ps) (\<lambda>e. e))
     = map listed (take 5 (sort_key (\<lambda>p. - dateTimestamp p)
         (filter (\<lambda>p. dateTimestamp p \<le> now) ps)))"
  by (simp add: getFiveNewestPosts_collection posts_of_def)

lemma posts_of_unavailable:
  "posts_of (getAllBlogPosts now Unavailable (\<lambda>e. e)) = []"
  "posts_of (getBlogPostsByTag now Unavailable tag (\<lambda>e. e)) = []"
  "posts_of (getFiveNewestPosts now Unavailable (\<lambda>e. e)) = []"
  by (simp_all add: getAllBlogPosts_def getBlogPostsByTag_def getFiveNewestPosts_def
        exec_def posts_of_def)

lemma listed_dateTimestamp: "map_of (listed p) ''dateTimestamp'' = Some (Num (dateTimestamp p))"
  by (simp add: listed_eq)

lemma listed_in_map:
  assumes "listed p \<in> set (map listed xs)"
  shows "\<exists>q \<in> set xs. dateTimestamp q = dateTimestamp p"
proof -
  from assms obtain q where q: "q \<in> set xs" "listed q = listed p" by auto
  from q(2) have "map_of (listed q) ''dateTimestamp'' = map_of (listed p) ''dateTimestamp''"
    by simp
  then have "dateTimestamp q = dateTimestamp p" by (simp only: listed_dateTimestamp) simp
  with q(1) show ?thesis by blast
qed





lemma descending_sort_key:
  "sorted_wrt (\<lambda>a b. b \<le> a) (map dateTimestamp (sort_key (\<lambda>p. - dateTimestamp p) xs))"
proof -
  have "sorted (map (\<lambda>p. - dateTimestamp p) (sort_key (\<lambda>p. - dateTimestamp p) xs))"
    by (rule sorted_sort_key)
  then show ?thesis by (simp add: sorted_wrt_map)
qed

lemma timestamps_listed:
  "map (\<lambda>d. map_of d ''dateTimestamp'') (map listed xs)
     = map (\<lambda>t. Some (Num t)) (map dateTimestamp xs)"
  by (simp add: listed_dateTimestamp)

lemma find_some_member:
  "List.find P xs = Some x \<Longrightarrow> x \<in> set xs \<and> P x"
  by (induction xs) (auto split: if_splits)

lemma find_unique_key:
  "distinct (map f xs) \<Longrightarrow> x \<in> set xs \<Longrightarrow> List.find (\<lambda>y. f y = f x) xs = Some x"
  by (induction xs) force+

lemma find_member_some:
  "x \<in> set xs \<Longrightarrow> P x \<Longrightarrow> \<exists>y. List.find P xs = Some y"
  by (induction xs) auto

text \<open>
  What two queries on the same posts share, whatever the order in which each meets them:
  the timestamps of the result, read in order, and the documents of the result; and the
  whole result when no two of the posts that match have the same timestamp.
\<close>

lemma timestamps_by_contents:
  assumes "mset qs = mset ps"
  shows "map dateTimestamp (sort_key (\<lambda>p. - dateTimestamp p) (filter P qs))
       = map dateTimestamp (sort_key (\<lambda>p. - dateTimestamp p) (filter P ps))"
proof -
  let ?f = "\<lambda>p. - dateTimestamp p"
  let ?A = "map ?f (sort_key ?f (filter P ps))"
  let ?B = "map ?f (sort_key ?f (filter P qs))"
  have a: "sort (map ?f (filter P ps)) = ?A"
    by (rule properties_for_sort) simp_all
  have b: "sort (map ?f (filter P ps)) = ?B"
    by (rule properties_for_sort) (simp_all add: assms)
  from a b have "?B = ?A" by simp
  then have "map uminus (map dateTimestamp (sort_key ?f (filter P qs)))
           = map uminus (map dateTimestamp (sort_key ?f (filter P ps)))"
    by (simp add: comp_def)
  then show ?thesis
    by (simp del: map_map)
qed

lemma order_by_contents:
  assumes "mset qs = mset ps" and "distinct (map dateTimestamp (filter P ps))"
  shows "sort_key (\<lambda>p. - dateTimestamp p) (filter P qs)
       = sort_key (\<lambda>p. - dateTimestamp p) (filter P ps)"
proof (rule sort_key_inj_key_eq)
  show "mset (filter P qs) = mset (sort_key (\<lambda>p. - dateTimestamp p) (filter P ps))"
    using assms(1) by simp
  have "inj_on dateTimestamp (set (filter P ps))"
    using assms(2) by (simp only: distinct_map)
  moreover have "set (filter P qs) = set (filter P ps)"
    using assms(1) by (auto dest: mset_eq_setD)
  ultimately show "inj_on (\<lambda>p. - dateTimestamp p) (set (filter P qs))"
    by (auto simp add: inj_on_def)
  show "sorted (map (\<lambda>p. - dateTimestamp p) (sort_key (\<lambda>p. - dateTimestamp p) (filter P ps)))"
    by (rule sorted_sort_key)
qed

lemma listing_by_contents:
  assumes "mset qs = mset ps"
  shows "mset (map listed (sort_key (\<lambda>p. - dateTimestamp p) (filter P qs)))
       = mset (map listed (sort_key (\<lambda>p. - dateTimestamp p) (filter P ps)))"
  using assms by simp

lemma tagged_by_contents:
  assumes "mset qs = mset ps"
  shows "mset (posts_of (getBlogPostsByTag now (Collection qs) tag (\<lambda>e. e)))
       = mset (posts_of (getBlogPostsByTag now (Collection ps) tag (\<lambda>e. e)))"
  by (simp only: posts_of_getBlogPostsByTag listing_by_contents [OF assms])

text \<open>
  Every arrangement of the published posts from the newest down is the answer of the
  store for some order in which it meets the posts.
\<close>

lemma any_tie_order_is_met:
  assumes "mset ys = mset (filter (\<lambda>p. dateTimestamp p \<le> now) ps)"
    and "sorted_wrt (\<lambda>a b. b \<le> a) (map dateTimestamp ys)"
  shows "\<exists>qs. same_posts (Collection ps) (Collection qs)
           \<and> posts_of (getAllBlogPosts now (Collection qs) (\<lambda>e. e)) = map listed ys
           \<and> posts_of (getFiveNewestPosts now (Collection qs) (\<lambda>e. e)) = map listed (take 5 ys)"
proof -
  let ?P = "\<lambda>p. dateTimestamp p \<le> now"
  let ?qs = "ys @ filter (\<lambda>p. \<not> ?P p) ps"
  have "set ys = set (filter ?P ps)"
    using assms(1) by (rule mset_eq_setD)
  then have all: "\<forall>p \<in> set ys. ?P p" by simp
  have f: "filter ?P ?qs = ys"
    using all by (simp add: filter_id_conv)
  have "sorted (map (\<lambda>p. - dateTimestamp p) ys)"
    using assms(2) by (simp add: sorted_wrt_map)
  then have s: "sort_key (\<lambda>p. - dateTimestamp p) ys = ys"
    by (rule sort_key_id_if_sorted)
  have m: "mset ps = mset ?qs"
    by (simp add: assms(1))
  have "posts_of (getAllBlogPosts now (Collection ?qs) (\<lambda>e. e)) = map listed ys"
    by (simp only: posts_of_getAllBlogPosts f s)
  moreover have "posts_of (getFiveNewestPosts now (Collection ?qs) (\<lambda>e. e)) = map listed (take 5 ys)"
    by (simp only: posts_of_getFiveNewestPosts f s)
  moreover have "same_posts (Collection ps) (Collection ?qs)"
    using m by simp
  ultimately show ?thesis by blast
qed

section \<open>Storage failure\<close>

lemma getAllBlogPosts_unavailable:
  "getAllBlogPosts now Unavailable callback = callback [(''getDataError'', JBool True)]"
  by (simp add: getAllBlogPosts_def exec_def)

lemma getBlogPostsByTag_unavailable:
  "getBlogPostsByTag now Unavailable tag callback = callback [(''getDataError'', JBool True)]"
  by (simp add: getBlogPostsByTag_def exec_def)

lemma getBlogPostByUrlTitle_unavailable:
  "getBlogPostByUrlTitle makeHtml Unavailable url callback
     = callback [(''getDataError'', JBool True)]"
  by (simp add: getBlogPostByUrlTitle_def findOne_exec_def)

text \<open>
  C3. On a storage failure every operation should hand \<^verbatim>\<open>{getDataError: true}\<close> to its
  callback. \<open>getFiveNewestPosts\<close> hands over \<^verbatim>\<open>{getdataError: true}\<close>, with a small
  \<^verbatim>\<open>d\<close>: the key \<^verbatim>\<open>getDataError\<close> is absent from its envelope, while the other three
  operations set it.
\<close>

theorem getFiveNewestPosts_unavailable_key:
  "getFiveNewestPosts now Unavailable (\<lambda>e. e) = [(''getdataError'', JBool True)]
   \<and> \<not> flag ''getDataError'' (getFiveNewestPosts now Unavailable (\<lambda>e. e))
   \<and> flag ''getDataError'' (getAllBlogPosts now Unavailable (\<lambda>e. e))"
  by (simp add: getFiveNewestPosts_def getAllBlogPosts_def exec_def flag_def)

section \<open>The list operations\<close>

text \<open>
  C1. A post whose \<^verbatim>\<open>dateTimestamp\<close> is later than \<open>now\<close> appears in the result of none
  of \<open>getAllBlogPosts\<close>, \<open>getBlogPostsByTag\<close> and \<open>getFiveNewestPosts\<close>, whatever the
  store holds.
\<close>

theorem future_posts_never_listed:
  assumes "now < dateTimestamp p"
  shows "listed p \<notin> set (posts_of (getAllBlogPosts now model (\<lambda>e. e)))
       \<and> listed p \<notin> set (posts_of (getBlogPostsByTag now model tag (\<lambda>e. e)))
       \<and> listed p \<notin> set (posts_of (getFiveNewestPosts now model (\<lambda>e. e)))"
proof (cases model)
  case Unavailable
  then show ?thesis by (simp add: posts_of_unavailable)
next
  case (Collection ps)
  have a: "listed p \<notin> set (posts_of (getAllBlogPosts now (Collection ps) (\<lambda>e. e)))"
  proof
    assume "listed p \<in> set (posts_of (getAllBlogPosts now (Collection ps) (\<lambda>e. e)))"
    then have "listed p \<in> set (map listed
        (sort_key (\<lambda>p. - dateTimestamp p) (filter (\<lambda>p. dateTimestamp p \<le> now) ps)))"
      by (simp only: posts_of_getAllBlogPosts)
    from listed_in_map [OF this] assms show False by auto
  qed
  have b: "listed p \<notin> set (posts_of (getBlogPostsByTag now (Collection ps) tag (\<lambda>e. e)))"
  proof
    assume "listed p \<in> set (posts_of (getBlogPostsByTag now (Collection ps) tag (\<lambda>e. e)))"
    then have "listed p \<in> set (map listed (sort_key (\<lambda>p. - dateTimestamp p)
         (filter (\<lambda>p. tag \<in> set (tags p) \<and> dateTimestamp p \<le> now) ps)))"
      by (simp only: posts_of_getBlogPostsByTag)
    from listed_in_map [OF this] assms show False by auto
  qed
  have c: "listed p \<notin> set (posts_of (getFiveNewestPosts now (Collection ps) (\<lambda>e. e)))"
  proof
    assume "listed p \<in> set (posts_of (getFiveNewestPosts now (Collection ps) (\<lambda>e. e)))"
    then have "listed p \<in> set (map listed (take 5 (sort_key (\<lambda>p. - dateTimestamp p)
         (filter (\<lambda>p. dateTimestamp p \<le> now) ps))))"
      by (simp only: posts_of_getFiveNewestPosts)
    from listed_in_map [OF this] obtain q
      where "q \<in> set (take 5 (sort_key (\<lambda>p. - dateTimestamp p)
         (filter (\<lambda>p. dateTimestamp p \<le> now) ps)))" "dateTimestamp q = dateTimestamp p"
      by blast
    then have "q \<in> set (sort_key (\<lambda>p. - dateTimestamp p)
         (filter (\<lambda>p. dateTimestamp p \<le> now) ps))" "dateTimestamp q = dateTimestamp p"
      by (auto dest: in_set_takeD)
    with assms show False by auto
  qed
  from a b c Collection show ?thesis by simp
qed

theorem future_posts_never_listed_witness:
  "(100::int) < dateTimestamp post_b
   \<and> listed post_b \<notin> set (posts_of (getAllBlogPosts 100 (Collection [post_a, post_b]) (\<lambda>e. e)))
   \<and> listed post_b \<notin> set (posts_of (getBlogPostsByTag 100 (Collection [post_a, post_b]) ''js'' (\<lambda>e. e)))
   \<and> listed post_b \<notin> set (posts_of (getFiveNewestPosts 100 (Collection [post_a, post_b]) (\<lambda>e. e)))"
  using future_posts_never_listed [of 100 post_b "Collection [post_a, post_b]" "''js''"]
  by (simp add: post_b_def)

text \<open>
  C7. In the result of each of the three list operations the \<^verbatim>\<open>dateTimestamp\<close>s of the
  documents, read in order, never increase: the newest post comes first.
\<close>

theorem list_results_newest_first:
  "(\<exists>ts. map (\<lambda>d. map_of d ''dateTimestamp'') (posts_of (getAllBlogPosts now model (\<lambda>e. e)))
            = map (\<lambda>t. Some (Num t)) ts \<and> sorted_wrt (\<lambda>a b. b \<le> a) ts)
 \<and> (\<exists>ts. map (\<lambda>d. map_of d ''dateTimestamp'') (posts_of (getBlogPostsByTag now model tag (\<lambda>e. e)))
            = map (\<lambda>t. Some (Num t)) ts \<and> sorted_wrt (\<lambda>a b. b \<le> a) ts)
 \<and> (\<exists>ts. map (\<lambda>d. map_of d ''dateTimestamp'') (posts_of (getFiveNewestPosts now model (\<lambda>e. e)))
            = map (\<lambda>t. Some (Num t)) ts \<and> sorted_wrt (\<lambda>a b. b \<le> a) ts)"
proof (cases model)
  case Unavailable
  then show ?thesis by (simp add: posts_of_unavailable)
next
  case (Collection ps)
  let ?all = "sort_key (\<lambda>p. - dateTimestamp p) (filter (\<lambda>p. dateTimestamp p \<le> now) ps)"
  let ?tagged = "sort_key (\<lambda>p. - dateTimestamp p)
         (filter (\<lambda>p. tag \<in> set (tags p) \<and> dateTimestamp p \<le> now) ps)"
  have five: "sorted_wrt (\<lambda>a b. b \<le> a) (map dateTimestamp (take 5 ?all))"
    using sorted_wrt_take [OF descending_sort_key, of 5] by (simp add: take_map)
  have a: "\<exists>ts. map (\<lambda>d. map_of d ''dateTimestamp'')
              (posts_of (getAllBlogPosts now (Collection ps) (\<lambda>e. e)))
            = map (\<lambda>t. Some (Num t)) ts \<and> sorted_wrt (\<lambda>a b. b \<le> a) ts"
    unfolding posts_of_getAllBlogPosts timestamps_listed
    using descending_sort_key by blast
  have b: "\<exists>ts. map (\<lambda>d. map_of d ''dateTimestamp'')
              (posts_of (getBlogPostsByTag now (Collection ps) tag (\<lambda>e. e)))
            = map (\<lambda>t. Some (Num t)) ts \<and> sorted_wrt (\<lambda>a b. b \<le> a) ts"
    unfolding posts_of_getBlogPostsByTag timestamps_listed
    using descending_sort_key by blast
  have c: "\<exists>ts. map (\<lambda>d. map_of d ''dateTimestamp'')
              (posts_of (getFiveNewestPosts now (Collection ps) (\<lambda>e. e)))
            = map (\<lambda>t. Some (Num t)) ts \<and> sorted_wrt (\<lambda>a b. b \<le> a) ts"
    unfolding posts_of_getFiveNewestPosts timestamps_listed
    using five by blast
  from a b c Collection show ?thesis by simp
qed




text \<open>
  Two published posts with the same timestamp: the query with the limit may give them in
  one order and the query without it in the other, and then the five newest are not a
  prefix of the full list.
\<close>

theorem five_newest_prefix_counterexample:
  "same_posts (Collection [post_a, post_c]) (Collection [post_c, post_a])
   \<and> posts_of (getAllBlogPosts 100 (Collection [post_a, post_c]) (\<lambda>e. e))
       = [listed post_a, listed post_c]
   \<and> posts_of (getFiveNewestPosts 100 (Collection [post_c, post_a]) (\<lambda>e. e))
       = [listed post_c, listed post_a]
   \<and> \<not> prefix (posts_of (getFiveNewestPosts 100 (Collection [post_c, post_a]) (\<lambda>e. e)))
               (posts_of (getAllBlogPosts 100 (Collection [post_a, post_c]) (\<lambda>e. e)))"
proof -
  have ne: "listed post_c \<noteq> listed post_a"
    by (simp add: listed_eq post_a_def post_c_def)
  have a: "posts_of (getAllBlogPosts 100 (Collection [post_a, post_c]) (\<lambda>e. e))
       = [listed post_a, listed post_c]"
    by (simp add: posts_of_getAllBlogPosts post_a_def post_c_def)
  have c: "posts_of (getFiveNewestPosts 100 (Collection [post_c, post_a]) (\<lambda>e. e))
       = [listed post_c, listed post_a]"
    by (simp add: posts_of_getFiveNewestPosts post_a_def post_c_def)
  have s: "same_posts (Collection [post_a, post_c]) (Collection [post_c, post_a])"
    by simp
  from ne have "\<not> prefix [listed post_c, listed post_a] [listed post_a, listed post_c]"
    by simp
  with a c s show ?thesis by (simp only: simp_thms)
qed

text \<open>
  C4. On the same posts at the same time, both operations succeed and the list of
  \<open>getFiveNewestPosts\<close> has at most five documents. It is the first five of an
  arrangement of the list of \<open>getAllBlogPosts\<close> that differs from it at most in the order
  of documents with the same \<^verbatim>\<open>dateTimestamp\<close>: its documents are documents of that list
  and its timestamps are the first five timestamps of that list. When no two published
  posts have the same \<^verbatim>\<open>dateTimestamp\<close> it is a prefix of that list.
\<close>

theorem five_newest_first_five_of_all:
  assumes "same_posts (Collection ps) (Collection qs)"
  shows "flag ''success'' (getFiveNewestPosts now (Collection qs) (\<lambda>e. e))
   \<and> flag ''success'' (getAllBlogPosts now (Collection ps) (\<lambda>e. e))
   \<and> length (posts_of (getFiveNewestPosts now (Collection qs) (\<lambda>e. e))) \<le> 5
   \<and> (\<exists>ys. mset ys = mset (posts_of (getAllBlogPosts now (Collection ps) (\<lambda>e. e)))
         \<and> map (\<lambda>d. map_of d ''dateTimestamp'') ys
             = map (\<lambda>d. map_of d ''dateTimestamp'')
                 (posts_of (getAllBlogPosts now (Collection ps) (\<lambda>e. e)))
         \<and> posts_of (getFiveNewestPosts now (Collection qs) (\<lambda>e. e)) = take 5 ys)
   \<and> set (posts_of (getFiveNewestPosts now (Collection qs) (\<lambda>e. e)))
        \<subseteq> set (posts_of (getAllBlogPosts now (Collection ps) (\<lambda>e. e)))
   \<and> map (\<lambda>d. map_of d ''dateTimestamp'')
        (posts_of (getFiveNewestPosts now (Collection qs) (\<lambda>e. e)))
        = take 5 (map (\<lambda>d. map_of d ''dateTimestamp'')
            (posts_of (getAllBlogPosts now (Collection ps) (\<lambda>e. e))))
   \<and> (distinct (map dateTimestamp (filter (\<lambda>p. dateTimestamp p \<le> now) ps)) \<longrightarrow>
        posts_of (getFiveNewestPosts now (Collection qs) (\<lambda>e. e))
          = take 5 (posts_of (getAllBlogPosts now (Collection ps) (\<lambda>e. e)))
        \<and> prefix (posts_of (getFiveNewestPosts now (Collection qs) (\<lambda>e. e)))
                 (posts_of (getAllBlogPosts now (Collection ps) (\<lambda>e. e))))"
proof -
  let ?P = "\<lambda>p. dateTimestamp p \<le> now"
  let ?f = "\<lambda>p. - dateTimestamp p"
  let ?ts = "\<lambda>d. map_of d ''dateTimestamp''"
  let ?all = "posts_of (getAllBlogPosts now (Collection ps) (\<lambda>e. e))"
  let ?other = "posts_of (getAllBlogPosts now (Collection qs) (\<lambda>e. e))"
  let ?five = "posts_of (getFiveNewestPosts now (Collection qs) (\<lambda>e. e))"
  from assms have m: "mset qs = mset ps" by simp
  have five: "?five = take 5 ?other"
    by (simp only: posts_of_getFiveNewestPosts posts_of_getAllBlogPosts take_map)
  have ok5: "flag ''success'' (getFiveNewestPosts now (Collection qs) (\<lambda>e. e))"
    by (simp add: getFiveNewestPosts_collection flag_def)
  have ok: "flag ''success'' (getAllBlogPosts now (Collection ps) (\<lambda>e. e))"
    by (simp add: getAllBlogPosts_collection flag_def)
  have len: "length ?five \<le> 5"
    by (simp only: five) simp
  have same: "mset ?other = mset ?all"
    by (simp only: posts_of_getAllBlogPosts listing_by_contents [OF m])
  have ts: "map ?ts ?other = map ?ts ?all"
    by (simp only: posts_of_getAllBlogPosts timestamps_listed timestamps_by_contents [OF m])
  from same ts five have ex: "\<exists>ys. mset ys = mset ?all \<and> map ?ts ys = map ?ts ?all
      \<and> ?five = take 5 ys"
    by blast
  have "set ?five \<subseteq> set ?other"
    by (simp only: five set_take_subset)
  moreover from same have "set ?other = set ?all" by (rule mset_eq_setD)
  ultimately have sub: "set ?five \<subseteq> set ?all" by simp
  have ts5: "map ?ts ?five = take 5 (map ?ts ?all)"
    by (simp only: five take_map [symmetric] ts)
  have uniq: "?five = take 5 ?all \<and> prefix ?five ?all"
    if d: "distinct (map dateTimestamp (filter ?P ps))"
  proof -
    have "?other = ?all"
      by (simp only: posts_of_getAllBlogPosts order_by_contents [OF m d])
    with five have "?five = take 5 ?all" by simp
    then show ?thesis by (simp only: take_is_prefix simp_thms)
  qed
  from ok5 ok len ex sub ts5 uniq show ?thesis by blast
qed

theorem five_newest_first_five_of_all_witness:
  "same_posts (Collection [post_a, post_b]) (Collection [post_b, post_a])
   \<and> distinct (map dateTimestamp (filter (\<lambda>p. dateTimestamp p \<le> 20000) [post_a, post_b]))
   \<and> length (posts_of (getFiveNewestPosts 20000 (Collection [post_b, post_a]) (\<lambda>e. e))) \<le> 5
   \<and> prefix (posts_of (getFiveNewestPosts 20000 (Collection [post_b, post_a]) (\<lambda>e. e)))
            (posts_of (getAllBlogPosts 20000 (Collection [post_a, post_b]) (\<lambda>e. e)))"
proof -
  have s: "same_posts (Collection [post_a, post_b]) (Collection [post_b, post_a])"
    by simp
  have d: "distinct (map dateTimestamp (filter (\<lambda>p. dateTimestamp p \<le> 20000) [post_a, post_b]))"
    by (simp add: post_a_def post_b_def)
  from five_newest_first_five_of_all [OF s, of 20000] s d show ?thesis by blast
qed


text \<open>
  C10. On a collection with no published post, \<open>getAllBlogPosts\<close> and
  \<open>getFiveNewestPosts\<close> hand over \<^verbatim>\<open>{success: true, posts: []}\<close>, and so does
  \<open>getBlogPostsByTag\<close> on a collection with no published post of the tag. That envelope
  carries neither \<^verbatim>\<open>notFoundError\<close> nor a storage-failure flag.
\<close>

theorem empty_listing_is_success:
  "((\<forall>p \<in> set ps. now < dateTimestamp p) \<longrightarrow>
      getAllBlogPosts now (Collection ps) (\<lambda>e. e) = [(''success'', JBool True), (''posts'', JPosts [])]
      \<and> getFiveNewestPosts now (Collection ps) (\<lambda>e. e)
          = [(''success'', JBool True), (''posts'', JPosts [])])
   \<and> ((\<forall>p \<in> set qs. dateTimestamp p \<le> now \<longrightarrow> tag \<notin> set (tags p)) \<longrightarrow>
      getBlogPostsByTag now (Collection qs) tag (\<lambda>e. e)
          = [(''success'', JBool True), (''posts'', JPosts [])])
   \<and> \<not> flag ''notFoundError'' [(''success'', JBool True), (''posts'', JPosts [])]
   \<and> \<not> flag ''getDataError'' [(''success'', JBool True), (''posts'', JPosts [])]
   \<and> \<not> flag ''getdataError'' [(''success'', JBool True), (''posts'', JPosts [])]"
proof -
  have a: "filter (\<lambda>p. dateTimestamp p \<le> now) ps = []" if "\<forall>p \<in> set ps. now < dateTimestamp p"
    using that by (auto simp add: filter_empty_conv)
  have b: "filter (\<lambda>p. tag \<in> set (tags p) \<and> dateTimestamp p \<le> now) qs = []"
    if "\<forall>p \<in> set qs. dateTimestamp p \<le> now \<longrightarrow> tag \<notin> set (tags p)"
    using that by (auto simp add: filter_empty_conv)
  show ?thesis
    by (auto simp add: getAllBlogPosts_collection getFiveNewestPosts_collection
        getBlogPostsByTag_collection a b flag_def)
qed

theorem empty_listing_is_success_witness:
  "(100::int) < dateTimestamp post_b
   \<and> ''rust'' \<notin> set (tags post_a)
   \<and> getAllBlogPosts 100 (Collection [post_b]) (\<lambda>e. e)
        = [(''success'', JBool True), (''posts'', JPosts [])]
   \<and> getFiveNewestPosts 100 (Collection [post_b]) (\<lambda>e. e)
        = [(''success'', JBool True), (''posts'', JPosts [])]
   \<and> getBlogPostsByTag 100 (Collection [post_a, post_b]) ''rust'' (\<lambda>e. e)
        = [(''success'', JBool True), (''posts'', JPosts [])]"
  using empty_listing_is_success [of "[post_b]" 100 "[post_a, post_b]" "''rust''"]
  by (simp add: post_a_def post_b_def)

section \<open>The lookup of one post\<close>

text \<open>
  C2. \<open>getBlogPostByUrlTitle\<close> takes no time and compares nothing but \<^verbatim>\<open>urlTitle\<close>: asked for
  the \<^verbatim>\<open>urlTitle\<close> of any stored post, published or dated in the future, it answers with a
  success envelope holding a stored post of that \<^verbatim>\<open>urlTitle\<close>, and that post is the one asked
  for when the \<^verbatim>\<open>urlTitle\<close>s of the collection are unique.
\<close>

theorem url_title_lookup_ignores_date:
  assumes "p \<in> set ps"
  shows "\<exists>q \<in> set ps. urlTitle q = urlTitle p
           \<and> (distinct (map urlTitle ps) \<longrightarrow> q = p)
           \<and> getBlogPostByUrlTitle makeHtml (Collection ps) (urlTitle p) (\<lambda>e. e)
               = [(''success'', JBool True),
                  (''post'', JPost (q\<lparr>markdownContent := makeHtml (markdownContent q)\<rparr>))]"
proof -
  from find_member_some [of p ps "\<lambda>x. urlTitle x = urlTitle p"] assms
  obtain q where q: "List.find (\<lambda>x. urlTitle x = urlTitle p) ps = Some q" by auto
  from find_some_member [OF q] have mem: "q \<in> set ps" and key: "urlTitle q = urlTitle p"
    by simp_all
  have uniq: "distinct (map urlTitle ps) \<longrightarrow> q = p"
    using find_unique_key [of urlTitle ps p] assms q by auto
  have env: "getBlogPostByUrlTitle makeHtml (Collection ps) (urlTitle p) (\<lambda>e. e)
               = [(''success'', JBool True),
                  (''post'', JPost (q\<lparr>markdownContent := makeHtml (markdownContent q)\<rparr>))]"
    by (simp add: getBlogPostByUrlTitle_collection q)
  from mem key uniq env show ?thesis by blast
qed

theorem url_title_lookup_ignores_date_witness:
  "post_b \<in> set [post_a, post_b] \<and> (100::int) < dateTimestamp post_b
   \<and> getBlogPostByUrlTitle (\<lambda>md. ''<p>'' @ md @ ''</p>'') (Collection [post_a, post_b]) ''b'' (\<lambda>e. e)
       = [(''success'', JBool True), (''post'', JPost (post_b\<lparr>markdownContent := ''<p>text</p>''\<rparr>))]"
  using url_title_lookup_ignores_date [of post_b "[post_a, post_b]" "(\<lambda>md. ''<p>'' @ md @ ''</p>'')"]
  by (auto simp add: post_a_def post_b_def)

text \<open>
  C6. \<open>getBlogPostByUrlTitle\<close> ends in one of three ways: \<^verbatim>\<open>{getDataError: true}\<close> when
  the store fails, \<^verbatim>\<open>{notFoundError: true}\<close> when no post of the collection has the
  \<^verbatim>\<open>urlTitle\<close>, and \<^verbatim>\<open>{success: true, post}\<close> when one has, with \<^verbatim>\<open>markdownContent\<close>
  replaced by what \<open>makeHtml\<close> makes of it. Each of the three flags is set in exactly
  its own case.
\<close>

theorem url_title_lookup_outcomes:
  "(model = Unavailable
      \<and> getBlogPostByUrlTitle makeHtml model url (\<lambda>e. e) = [(''getDataError'', JBool True)]
    \<or> (\<exists>ps. model = Collection ps \<and> (\<forall>p \<in> set ps. urlTitle p \<noteq> url)
          \<and> getBlogPostByUrlTitle makeHtml model url (\<lambda>e. e) = [(''notFoundError'', JBool True)])
    \<or> (\<exists>ps p. model = Collection ps \<and> p \<in> set ps \<and> urlTitle p = url
          \<and> getBlogPostByUrlTitle makeHtml model url (\<lambda>e. e)
              = [(''success'', JBool True),
                 (''post'', JPost (p\<lparr>markdownContent := makeHtml (markdownContent p)\<rparr>))]))
   \<and> flag ''getDataError'' (getBlogPostByUrlTitle makeHtml model url (\<lambda>e. e))
        = (model = Unavailable)
   \<and> flag ''notFoundError'' (getBlogPostByUrlTitle makeHtml model url (\<lambda>e. e))
        = (\<exists>ps. model = Collection ps \<and> (\<forall>p \<in> set ps. urlTitle p \<noteq> url))
   \<and> flag ''success'' (getBlogPostByUrlTitle makeHtml model url (\<lambda>e. e))
        = (\<exists>ps. model = Collection ps \<and> (\<exists>p \<in> set ps. urlTitle p = url))"
proof (cases model)
  case Unavailable
  then show ?thesis by (simp add: getBlogPostByUrlTitle_unavailable flag_def)
next
  case (Collection ps)
  show ?thesis
  proof (cases "List.find (\<lambda>p. urlTitle p = url) ps")
    case None
    then have no: "\<forall>p \<in> set ps. urlTitle p \<noteq> url" by (simp add: find_None_iff)
    have "getBlogPostByUrlTitle makeHtml (Collection ps) url (\<lambda>e. e)
            = [(''notFoundError'', JBool True)]"
      by (simp add: getBlogPostByUrlTitle_collection None)
    with no Collection show ?thesis by (simp add: flag_def)
  next
    case (Some p)
    from find_some_member [OF Some] have p: "p \<in> set ps" "urlTitle p = url" by simp_all
    have "getBlogPostByUrlTitle makeHtml (Collection ps) url (\<lambda>e. e)
            = [(''success'', JBool True),
               (''post'', JPost (p\<lparr>markdownContent := makeHtml (markdownContent p)\<rparr>))]"
      by (simp add: getBlogPostByUrlTitle_collection Some)
    with p Collection show ?thesis by (auto simp add: flag_def)
  qed
qed

theorem url_title_lookup_outcomes_witness:
  "getBlogPostByUrlTitle (\<lambda>md. ''<p>'' @ md @ ''</p>'') (Collection [post_a, post_b]) ''b'' (\<lambda>e. e)
     = [(''success'', JBool True), (''post'', JPost (post_b\<lparr>markdownContent := ''<p>text</p>''\<rparr>))]
   \<and> flag ''success'' (getBlogPostByUrlTitle (\<lambda>md. ''<p>'' @ md @ ''</p>'') (Collection [post_a, post_b]) ''b'' (\<lambda>e. e))
   \<and> \<not> flag ''getDataError'' (getBlogPostByUrlTitle (\<lambda>md. ''<p>'' @ md @ ''</p>'') (Collection [post_a, post_b]) ''b'' (\<lambda>e. e))
   \<and> \<not> flag ''notFoundError'' (getBlogPostByUrlTitle (\<lambda>md. ''<p>'' @ md @ ''</p>'') (Collection [post_a, post_b]) ''b'' (\<lambda>e. e))
   \<and> flag ''notFoundError'' (getBlogPostByUrlTitle (\<lambda>md. ''<p>'' @ md @ ''</p>'') (Collection [post_a, post_b]) ''c'' (\<lambda>e. e))"
  using url_title_lookup_outcomes [of "Collection [post_a, post_b]" "(\<lambda>md. ''<p>'' @ md @ ''</p>'')" "''b''"]
    url_title_lookup_outcomes [of "Collection [post_a, post_b]" "(\<lambda>md. ''<p>'' @ md @ ''</p>'')" "''c''"]
  by (simp add: getBlogPostByUrlTitle_collection flag_def post_a_def post_b_def)

text \<open>
  C9. When \<open>getBlogPostByUrlTitle\<close> hands over a post, that post is the stored post found
  for the \<^verbatim>\<open>urlTitle\<close> with \<^verbatim>\<open>_id\<close>, \<^verbatim>\<open>id\<close>, \<^verbatim>\<open>title\<close>, \<^verbatim>\<open>urlTitle\<close>, \<^verbatim>\<open>dateTimestamp\<close>,
  \<^verbatim>\<open>tags\<close>, \<^verbatim>\<open>thumbnailImageUrl\<close>, \<^verbatim>\<open>seoTitleTag\<close> and \<^verbatim>\<open>seoMetaDescription\<close> as they
  are stored; only \<^verbatim>\<open>markdownContent\<close> differs, and holds the HTML.
\<close>

theorem url_title_lookup_keeps_other_fields:
  assumes "map_of (getBlogPostByUrlTitle makeHtml (Collection ps) url (\<lambda>e. e)) ''post''
             = Some (JPost q)"
  shows "\<exists>p \<in> set ps. List.find (\<lambda>x. urlTitle x = url) ps = Some p
           \<and> object_id q = object_id p
           \<and> id' q = id' p \<and> title q = title p \<and> urlTitle q = urlTitle p
           \<and> dateTimestamp q = dateTimestamp p \<and> tags q = tags p
           \<and> thumbnailImageUrl q = thumbnailImageUrl p
           \<and> seoTitleTag q = seoTitleTag p \<and> seoMetaDescription q = seoMetaDescription p
           \<and> markdownContent q = makeHtml (markdownContent p)"
proof (cases "List.find (\<lambda>x. urlTitle x = url) ps")
  case None
  with assms show ?thesis by (simp add: getBlogPostByUrlTitle_collection)
next
  case (Some p)
  with assms have q: "q = p\<lparr>markdownContent := makeHtml (markdownContent p)\<rparr>"
    by (simp add: getBlogPostByUrlTitle_collection)
  from find_some_member [OF Some] have "p \<in> set ps" by simp
  with Some q show ?thesis by simp
qed

theorem url_title_lookup_keeps_other_fields_witness:
  "map_of (getBlogPostByUrlTitle (\<lambda>md. ''<p>'' @ md @ ''</p>'') (Collection [post_a, post_b]) ''a'' (\<lambda>e. e)) ''post''
     = Some (JPost (post_a\<lparr>markdownContent := ''<p># Hi</p>''\<rparr>))
   \<and> (\<exists>p \<in> set [post_a, post_b].
         title (post_a\<lparr>markdownContent := ''<p># Hi</p>''\<rparr>) = title p
         \<and> seoTitleTag (post_a\<lparr>markdownContent := ''<p># Hi</p>''\<rparr>) = seoTitleTag p
         \<and> markdownContent (post_a\<lparr>markdownContent := ''<p># Hi</p>''\<rparr>)
             = ''<p>'' @ markdownContent p @ ''</p>'')"
proof -
  have found: "map_of (getBlogPostByUrlTitle (\<lambda>md. ''<p>'' @ md @ ''</p>'') (Collection [post_a, post_b]) ''a'' (\<lambda>e. e)) ''post''
     = Some (JPost (post_a\<lparr>markdownContent := ''<p># Hi</p>''\<rparr>))"
    by (simp add: getBlogPostByUrlTitle_collection post_a_def)
  from url_title_lookup_keeps_other_fields [OF found] found
  show ?thesis by blast
qed

end
